theory Spec2Isabelle
  imports Complex_Main
begin

section \<open>Cubic splines of \<^verbatim>\<open>Splines.py\<close> over exact reals\<close>

text \<open>
  The module \<^verbatim>\<open>Splines.py\<close> builds piecewise cubics on numpy arrays of doubles.
  The development models a one-dimensional numpy array as a \<open>real list\<close> and every
  arithmetic operation as the exact operation on reals: rounding is outside the model.
  A numpy operation that raises becomes a value \<open>Inl e\<close> of the result type; numpy's
  division by a zero width gives \<open>inf\<close> or \<open>nan\<close> without raising, where HOL's
  \<open>x / 0\<close> is \<open>0\<close>, and no theorem below reads a quotient by a zero width.
\<close>

subsection \<open>Python and numpy primitives\<close>

datatype py_error = ValueError | IndexError | LinAlgError

type_synonym 'a result = "py_error + 'a"

definition and_then :: "'a result \<Rightarrow> ('a \<Rightarrow> 'b result) \<Rightarrow> 'b result" where
  "and_then r f = (case r of Inl e \<Rightarrow> Inl e | Inr v \<Rightarrow> f v)"

text \<open>An integer index \<^verbatim>\<open>i\<close> into a sequence of length \<open>n\<close>: \<open>-n..-1\<close> count from the
  end, anything outside \<open>-n..n-1\<close> raises \<^verbatim>\<open>IndexError\<close>.\<close>

definition py_index :: "nat \<Rightarrow> int \<Rightarrow> nat option" where
  "py_index n i =
     (if 0 \<le> i \<and> i < int n then Some (nat i)
      else if - int n \<le> i \<and> i < 0 then Some (nat (int n + i))
      else None)"

definition getitem :: "'a list \<Rightarrow> int \<Rightarrow> 'a result" where
  "getitem a i = (case py_index (length a) i of None \<Rightarrow> Inl IndexError | Some j \<Rightarrow> Inr (a ! j))"

definition setitem :: "'a list \<Rightarrow> int \<Rightarrow> 'a \<Rightarrow> 'a list result" where
  "setitem a i v =
     (case py_index (length a) i of None \<Rightarrow> Inl IndexError | Some j \<Rightarrow> Inr (a[j := v]))"

text \<open>A slice bound of \<^verbatim>\<open>a[lo:hi]\<close>: negative bounds count from the end, and every
  bound is cut to the range \<open>0..len(a)\<close>; a missing bound is \<open>None\<close>.\<close>

definition slice_index :: "nat \<Rightarrow> int \<Rightarrow> nat" where
  "slice_index n i = (if i < 0 then nat (int n + i) else min n (nat i))"

definition slice_lo :: "nat \<Rightarrow> int option \<Rightarrow> nat" where
  "slice_lo n lo = (case lo of None \<Rightarrow> 0 | Some i \<Rightarrow> slice_index n i)"

definition slice_hi :: "nat \<Rightarrow> int option \<Rightarrow> nat" where
  "slice_hi n hi = (case hi of None \<Rightarrow> n | Some i \<Rightarrow> slice_index n i)"

definition getslice :: "'a list \<Rightarrow> int option \<Rightarrow> int option \<Rightarrow> 'a list" where
  "getslice a lo hi = drop (slice_lo (length a) lo) (take (slice_hi (length a) hi) a)"

text \<open>Slice assignment \<^verbatim>\<open>a[lo:hi] = v\<close> on a numpy array: the array keeps its length,
  \<open>v\<close> must have the length of the slice or length one (it is then repeated).\<close>

definition setslice :: "'a list \<Rightarrow> int option \<Rightarrow> int option \<Rightarrow> 'a list \<Rightarrow> 'a list result" where
  "setslice a lo hi v =
     (let l = slice_lo (length a) lo; h = max l (slice_hi (length a) hi); m = h - l
      in if length v = m then Inr (take l a @ v @ drop h a)
         else if length v = 1 then Inr (take l a @ replicate m (hd v) @ drop h a)
         else Inl ValueError)"

text \<open>The same two assignments on row \<open>r\<close> of a two-dimensional array.\<close>

definition setitem2 :: "'a list list \<Rightarrow> nat \<Rightarrow> int \<Rightarrow> 'a \<Rightarrow> 'a list list result" where
  "setitem2 A r c v = and_then (setitem (A ! r) c v) (\<lambda>row. Inr (A[r := row]))"

definition setslice2 ::
  "'a list list \<Rightarrow> nat \<Rightarrow> int option \<Rightarrow> int option \<Rightarrow> 'a list \<Rightarrow> 'a list list result" where
  "setslice2 A r lo hi v = and_then (setslice (A ! r) lo hi v) (\<lambda>row. Inr (A[r := row]))"

text \<open>An elementwise binary operation on two one-dimensional arrays, with numpy's
  broadcasting: equal lengths, or one operand of length one.\<close>

definition broadcast2 ::
  "(real \<Rightarrow> real \<Rightarrow> real) \<Rightarrow> real list \<Rightarrow> real list \<Rightarrow> real list result" where
  "broadcast2 f a b =
     (if length a = length b then Inr (map2 f a b)
      else if length a = 1 then Inr (map (f (hd a)) b)
      else if length b = 1 then Inr (map (\<lambda>x. f x (hd b)) a)
      else Inl ValueError)"

text \<open>\<^verbatim>\<open>np.diff(a)\<close> is \<^verbatim>\<open>a[1:] - a[:-1]\<close>.\<close>

definition diff :: "real list \<Rightarrow> real list" where
  "diff a = map2 (\<lambda>u l. u - l) (getslice a (Some 1) None) (getslice a None (Some (- 1)))"

text \<open>\<^verbatim>\<open>np.clip(i, lo, hi)\<close> is \<^verbatim>\<open>minimum(maximum(i, lo), hi)\<close>.\<close>

definition clip :: "int \<Rightarrow> int \<Rightarrow> int \<Rightarrow> int" where
  "clip i lo hi = min (max i lo) hi"

text \<open>\<^verbatim>\<open>np.searchsorted(a, v, side="right")\<close>: the library's bisection, which keeps
  \<open>a[mid] \<le> v\<close> to the left of the answer.\<close>

function bisect_right :: "real list \<Rightarrow> real \<Rightarrow> nat \<Rightarrow> nat \<Rightarrow> nat" where
  "bisect_right a v lo hi =
     (if lo < hi
      then (let mid = lo + (hi - lo) div 2
            in if a ! mid \<le> v then bisect_right a v (mid + 1) hi
               else bisect_right a v lo mid)
      else lo)"
  by pat_completeness auto
termination
  by (relation "measure (\<lambda>(a, v, lo, hi). hi - lo)") auto

definition searchsorted_right :: "real list \<Rightarrow> real \<Rightarrow> nat" where
  "searchsorted_right a v = bisect_right a v 0 (length a)"

subsection \<open>The class \<^verbatim>\<open>CSpline\<close>\<close>

record cspline =
  xi :: "real list"
  yi :: "real list"
  si :: "real list"
  ai :: "real list"
  bi :: "real list"

text \<open>\<^verbatim>\<open>CSpline.__init__\<close>: stores the three arrays and computes
  \<^verbatim>\<open>(3*dy/dx - si[1:] - 2*si[:-1]) / dx\<close> and \<^verbatim>\<open>(si[1:] + si[:-1] - 2*dy/dx) / dx**2\<close>.\<close>

definition CSpline :: "real list \<Rightarrow> real list \<Rightarrow> real list \<Rightarrow> cspline result" where
  "CSpline xs ys ss =
     (let dx = diff xs; dy = diff ys;
          s_hi = getslice ss (Some 1) None; s_lo = getslice ss None (Some (- 1))
      in and_then (broadcast2 (/) (map ((*) 3) dy) dx) (\<lambda>t1.
         and_then (broadcast2 (-) t1 s_hi) (\<lambda>t2.
         and_then (broadcast2 (-) t2 (map ((*) 2) s_lo)) (\<lambda>t3.
         and_then (broadcast2 (/) t3 dx) (\<lambda>a.
         and_then (broadcast2 (+) s_hi s_lo) (\<lambda>u1.
         and_then (broadcast2 (/) (map ((*) 2) dy) dx) (\<lambda>u2.
         and_then (broadcast2 (-) u1 u2) (\<lambda>u3.
         and_then (broadcast2 (/) u3 (map (\<lambda>d. d ^ 2) dx)) (\<lambda>b.
         Inr \<lparr>xi = xs, yi = ys, si = ss, ai = a, bi = b\<rparr>)))))))))"

text \<open>\<^verbatim>\<open>CSpline.__call__\<close> at a scalar query.\<close>

definition call :: "cspline \<Rightarrow> real \<Rightarrow> real result" where
  "call sp x =
     (let i = int (searchsorted_right (xi sp) x) - 1;
          i = clip i 0 (int (length (xi sp)) - 2)
      in and_then (getitem (xi sp) i) (\<lambda>xv.
         let dx = x - xv
         in and_then (getitem (yi sp) i) (\<lambda>yv.
            and_then (getitem (si sp) i) (\<lambda>sv.
            and_then (getitem (ai sp) i) (\<lambda>av.
            and_then (getitem (bi sp) i) (\<lambda>bv.
            Inr (yv + dx * (sv + dx * (av + dx * bv)))))))))"

text \<open>The cubic of segment \<open>i\<close> as the docstring writes it,
  \<^verbatim>\<open>pi(x) = yi + si (x-xi) + ai(x-xi)**2 + bi(x-xi)**3\<close>, and its first two derivatives.\<close>

definition segment :: "cspline \<Rightarrow> nat \<Rightarrow> real \<Rightarrow> real" where
  "segment sp i x =
     yi sp ! i + si sp ! i * (x - xi sp ! i) + ai sp ! i * (x - xi sp ! i) ^ 2
       + bi sp ! i * (x - xi sp ! i) ^ 3"

definition segment' :: "cspline \<Rightarrow> nat \<Rightarrow> real \<Rightarrow> real" where
  "segment' sp i x =
     si sp ! i + 2 * ai sp ! i * (x - xi sp ! i) + 3 * bi sp ! i * (x - xi sp ! i) ^ 2"

definition segment'' :: "cspline \<Rightarrow> nat \<Rightarrow> real \<Rightarrow> real" where
  "segment'' sp i x = 2 * ai sp ! i + 6 * bi sp ! i * (x - xi sp ! i)"

text \<open>The data model's invariant on the nodes: strictly increasing.\<close>

definition increasing :: "real list \<Rightarrow> bool" where
  "increasing a = sorted_wrt (<) a"

text \<open>The insertion point as the documentation of \<^verbatim>\<open>searchsorted\<close> states it for an
  ascending array and \<^verbatim>\<open>side="right"\<close>: the number of entries that are at most \<open>v\<close>.\<close>

definition insertion_point :: "real list \<Rightarrow> real \<Rightarrow> nat" where
  "insertion_point a v = length (filter (\<lambda>e. e \<le> v) a)"

text \<open>The segment that \<^verbatim>\<open>__call__\<close> is documented to pick: the insertion point minus
  one, clamped to \<open>0..N-2\<close>.\<close>

definition segment_index :: "real list \<Rightarrow> real \<Rightarrow> nat" where
  "segment_index xs q = nat (clip (int (insertion_point xs q) - 1) 0 (int (length xs) - 2))"

subsection \<open>\<^verbatim>\<open>CSpline.__call__\<close> on an array of queries\<close>

text \<open>An n-dimensional numpy array: its shape and its entries in row-major order. The
  operations of \<^verbatim>\<open>__call__\<close> act on the entries and keep the shape; a scalar query is
  the array of shape \<open>[]\<close> with one entry.\<close>

record 'a ndarray =
  shape :: "nat list"
  data :: "'a list"

definition nd_map :: "('a \<Rightarrow> 'b) \<Rightarrow> 'a ndarray \<Rightarrow> 'b ndarray" where
  "nd_map f x = \<lparr>shape = shape x, data = map f (data x)\<rparr>"

fun collect :: "'a result list \<Rightarrow> 'a list result" where
  "collect [] = Inr []"
| "collect (r # rs) =
     (case r of Inl e \<Rightarrow> Inl e
      | Inr v \<Rightarrow> (case collect rs of Inl e \<Rightarrow> Inl e | Inr vs \<Rightarrow> Inr (v # vs)))"

text \<open>\<^verbatim>\<open>a[i]\<close> with an integer array \<open>i\<close>: the result has the shape of \<open>i\<close>, and one
  index out of range raises.\<close>

definition nd_take :: "'a list \<Rightarrow> int ndarray \<Rightarrow> 'a ndarray result" where
  "nd_take a i =
     and_then (collect (map (getitem a) (data i))) (\<lambda>vs. Inr \<lparr>shape = shape i, data = vs\<rparr>)"

text \<open>A binary operation on two arrays. In \<^verbatim>\<open>__call__\<close> both operands always have the
  shape of the query, so only that case computes entries here.\<close>

definition nd_binop :: "(real \<Rightarrow> real \<Rightarrow> real) \<Rightarrow> real ndarray \<Rightarrow> real ndarray \<Rightarrow> real ndarray result" where
  "nd_binop f x y =
     (if shape x = shape y \<and> length (data x) = length (data y)
      then Inr \<lparr>shape = shape x, data = map2 f (data x) (data y)\<rparr>
      else Inl ValueError)"

definition call_nd :: "cspline \<Rightarrow> real ndarray \<Rightarrow> real ndarray result" where
  "call_nd sp x =
     (let i = nd_map (\<lambda>r. int r - 1) (nd_map (searchsorted_right (xi sp)) x);
          i = nd_map (\<lambda>j. clip j 0 (int (length (xi sp)) - 2)) i
      in and_then (nd_take (xi sp) i) (\<lambda>xv.
         and_then (nd_binop (-) x xv) (\<lambda>dx.
         and_then (nd_take (yi sp) i) (\<lambda>yv.
         and_then (nd_take (si sp) i) (\<lambda>sv.
         and_then (nd_take (ai sp) i) (\<lambda>av.
         and_then (nd_take (bi sp) i) (\<lambda>bv.
         and_then (nd_binop (*) dx bv) (\<lambda>t1.
         and_then (nd_binop (+) av t1) (\<lambda>t2.
         and_then (nd_binop (*) dx t2) (\<lambda>t3.
         and_then (nd_binop (+) sv t3) (\<lambda>t4.
         and_then (nd_binop (*) dx t4) (\<lambda>t5.
         nd_binop (+) yv t5))))))))))))"

subsection \<open>The class \<^verbatim>\<open>CSpline_Clasica\<close>\<close>

text \<open>The banded matrix \<^verbatim>\<open>A = np.zeros((3, dx.size+1))\<close> after the eight assignments of
  the constructor: row 0 holds the upper diagonal, row 1 the main one, row 2 the lower.\<close>

definition banded_A :: "real list \<Rightarrow> real list list result" where
  "banded_A dx =
     (let A = replicate 3 (replicate (length dx + 1) 0)
      in and_then (setitem2 A 0 1 1) (\<lambda>A.
         and_then (setslice2 A 0 (Some 2) None (getslice dx None (Some (- 1)))) (\<lambda>A.
         and_then (setitem2 A 1 0 2) (\<lambda>A.
         and_then (broadcast2 (+) (getslice dx None (Some (- 1))) (getslice dx (Some 1) None)) (\<lambda>t.
         and_then (setslice2 A 1 (Some 1) (Some (- 1)) (map ((*) 2) t)) (\<lambda>A.
         and_then (setitem2 A 1 (- 1) 2) (\<lambda>A.
         and_then (setitem2 A 2 (- 2) 1) (\<lambda>A.
         setslice2 A 2 None (Some (- 2)) (getslice dx (Some 1) None)))))))))"

text \<open>The right-hand side \<^verbatim>\<open>p = np.zeros(dx.size+1)\<close> after its three assignments, in
  the order of the source: \<^verbatim>\<open>p[:-1] = 3*dy/dx\<close>, \<^verbatim>\<open>p[-1] = p[-2]\<close>,
  \<^verbatim>\<open>p[1:-1] = p[1:-1] * dx[:-1] + p[:-2] * dx[1:]\<close>.\<close>

definition rhs_p :: "real list \<Rightarrow> real list \<Rightarrow> real list result" where
  "rhs_p dx dy =
     (let p = replicate (length dx + 1) 0
      in and_then (broadcast2 (/) (map ((*) 3) dy) dx) (\<lambda>t.
         and_then (setslice p None (Some (- 1)) t) (\<lambda>p.
         and_then (getitem p (- 2)) (\<lambda>v.
         and_then (setitem p (- 1) v) (\<lambda>p.
         and_then (broadcast2 (*) (getslice p (Some 1) (Some (- 1))) (getslice dx None (Some (- 1)))) (\<lambda>u1.
         and_then (broadcast2 (*) (getslice p None (Some (- 2))) (getslice dx (Some 1) None)) (\<lambda>u2.
         and_then (broadcast2 (+) u1 u2) (\<lambda>u.
         setslice p (Some 1) (Some (- 1)) u))))))))"

text \<open>\<^verbatim>\<open>CSpline_Clasica.__init__\<close>. The solver \<^verbatim>\<open>scipy.linalg.solve_banded\<close> is a library
  routine outside the repository: it is the parameter \<open>solve_banded\<close>, called with the
  assembled matrix and right-hand side (the bandwidths are fixed at \<open>(1, 1)\<close>).\<close>

definition CSpline_Clasica ::
  "(real list list \<Rightarrow> real list \<Rightarrow> real list result) \<Rightarrow> real list \<Rightarrow> real list \<Rightarrow> cspline result" where
  "CSpline_Clasica solve_banded xs ys =
     (let dx = diff xs; dy = diff ys
      in and_then (banded_A dx) (\<lambda>A.
         and_then (rhs_p dx dy) (\<lambda>p.
         and_then (solve_banded A p) (\<lambda>s.
         CSpline xs ys s))))"

text \<open>What \<^verbatim>\<open>solve_banded((1, 1), A, p)\<close> solves: the banded storage holds entry
  \<open>(i, j)\<close> of the square matrix at \<^verbatim>\<open>A[1 + i - j, j]\<close>, and entries off the three
  diagonals are zero. \<open>solves A p s\<close> says that \<open>s\<close> is an exact solution.\<close>

definition banded_entry :: "real list list \<Rightarrow> nat \<Rightarrow> nat \<Rightarrow> real" where
  "banded_entry A i j = (if j \<le> i + 1 \<and> i \<le> j + 1 then A ! (1 + i - j) ! j else 0)"

definition banded_row :: "real list list \<Rightarrow> real list \<Rightarrow> nat \<Rightarrow> real" where
  "banded_row A s i = (\<Sum>j < length s. banded_entry A i j * s ! j)"

definition solves :: "real list list \<Rightarrow> real list \<Rightarrow> real list \<Rightarrow> bool" where
  "solves A p s \<longleftrightarrow> length s = length p \<and> map (banded_row A s) [0..<length s] = p"

subsection \<open>Slices, differences and broadcasting\<close>

lemma getslice_tail: "getslice a (Some 1) None = tl a"
  by (cases a) (simp_all add: getslice_def slice_lo_def slice_hi_def slice_index_def)

lemma getslice_front: "getslice a None (Some (- 1)) = butlast a"
proof -
  have "nat (int (length a) - 1) = length a - 1" by simp
  then show ?thesis
    by (simp add: getslice_def slice_lo_def slice_hi_def slice_index_def butlast_conv_take)
qed

lemma length_diff: "length (diff a) = length a - 1"
  by (simp add: diff_def getslice_tail getslice_front)

lemma nth_diff: "Suc i < length a \<Longrightarrow> diff a ! i = a ! Suc i - a ! i"
  by (simp add: diff_def getslice_tail getslice_front nth_tl nth_butlast)

lemma broadcast2_same: "length a = length b \<Longrightarrow> broadcast2 f a b = Inr (map2 f a b)"
  by (simp add: broadcast2_def)

lemma and_then_Inr: "and_then (Inr v) f = f v"
  by (simp add: and_then_def)

lemma and_then_Inl: "and_then (Inl e) f = Inl e"
  by (simp add: and_then_def)

subsection \<open>Construction from sequences of one length\<close>

lemma CSpline_equal_lengths:
  assumes "length ys = length xs" and "length ss = length xs"
  shows "\<exists>a b. CSpline xs ys ss = Inr \<lparr>xi = xs, yi = ys, si = ss, ai = a, bi = b\<rparr>
           \<and> length a = length xs - 1 \<and> length b = length xs - 1
           \<and> (\<forall>i. Suc i < length xs \<longrightarrow>
                 a ! i = (3 * (ys ! Suc i - ys ! i) / (xs ! Suc i - xs ! i) - ss ! Suc i - 2 * ss ! i)
                           / (xs ! Suc i - xs ! i)
               \<and> b ! i = (ss ! Suc i + ss ! i - 2 * (ys ! Suc i - ys ! i) / (xs ! Suc i - xs ! i))
                           / (xs ! Suc i - xs ! i) ^ 2)"
  using assms
  by (simp add: CSpline_def Let_def broadcast2_same length_diff getslice_tail getslice_front
      and_then_Inr nth_diff nth_tl nth_butlast)



subsection \<open>The cubic of one segment\<close>



text \<open>\<open>segment'\<close> and \<open>segment''\<close> are the first and second derivative of the cubic.\<close>

lemma segment_has_derivative:
  "(segment sp i has_field_derivative segment' sp i x) (at x)"
  unfolding segment_def [abs_def] segment'_def
  by (auto intro!: derivative_eq_intros simp: power2_eq_square power3_eq_cube algebra_simps)

lemma segment'_has_derivative:
  "(segment' sp i has_field_derivative segment'' sp i x) (at x)"
  unfolding segment'_def [abs_def] segment''_def
  by (auto intro!: derivative_eq_intros simp: power2_eq_square power3_eq_cube algebra_simps)



subsection \<open>Bisection on ascending nodes\<close>

lemma bisect_right_spec:
  assumes "sorted a" and "lo \<le> hi" and "hi \<le> length a"
    and "\<forall>j<lo. a ! j \<le> v" and "\<forall>j. hi \<le> j \<and> j < length a \<longrightarrow> v < a ! j"
  shows "lo \<le> bisect_right a v lo hi \<and> bisect_right a v lo hi \<le> hi
         \<and> (\<forall>j<bisect_right a v lo hi. a ! j \<le> v)
         \<and> (\<forall>j. bisect_right a v lo hi \<le> j \<and> j < length a \<longrightarrow> v < a ! j)"
  using assms
proof (induction a v lo hi rule: bisect_right.induct)
  case (1 a v lo hi)
  note srt = "1.prems"(1) and le = "1.prems"(2) and len = "1.prems"(3)
    and left = "1.prems"(4) and right = "1.prems"(5)
  show ?case
  proof (cases "lo < hi")
    case False
    with le have "hi = lo" by simp
    moreover have "bisect_right a v lo hi = lo"
      using False by (subst bisect_right.simps) simp
    ultimately show ?thesis using left right by simp
  next
    case True
    define mid where "mid = lo + (hi - lo) div 2"
    have mid: "lo \<le> mid" "mid < hi" using True by (simp_all add: mid_def)
    show ?thesis
    proof (cases "a ! mid \<le> v")
      case below_v: True
      have below: "\<forall>j<mid + 1. a ! j \<le> v"
      proof (intro allI impI)
        fix j assume "j < mid + 1"
        then have "j \<le> mid" by simp
        moreover have "mid < length a" using mid(2) len by simp
        ultimately have "a ! j \<le> a ! mid" using srt by (simp only: sorted_nth_mono)
        with below_v show "a ! j \<le> v" by simp
      qed
      have eq: "bisect_right a v lo hi = bisect_right a v (mid + 1) hi"
        using True below_v by (subst bisect_right.simps) (simp add: mid_def Let_def)
      have hi': "mid + 1 \<le> hi" using mid(2) by simp
      note IH = "1.IH"(1) [OF True mid_def below_v srt hi' len below right]
      from IH have "mid + 1 \<le> bisect_right a v (mid + 1) hi" by (rule conjunct1)
      with mid(1) have "lo \<le> bisect_right a v (mid + 1) hi" by simp
      with IH show ?thesis unfolding eq by blast
    next
      case above_v: False
      have above: "\<forall>j. mid \<le> j \<and> j < length a \<longrightarrow> v < a ! j"
      proof (intro allI impI)
        fix j assume j: "mid \<le> j \<and> j < length a"
        then have "a ! mid \<le> a ! j" using srt by (simp only: sorted_nth_mono)
        with above_v show "v < a ! j" by simp
      qed
      have eq: "bisect_right a v lo hi = bisect_right a v lo mid"
        using True above_v by (subst bisect_right.simps) (simp add: mid_def Let_def)
      have len': "mid \<le> length a" using mid(2) len by simp
      note IH = "1.IH"(2) [OF True mid_def above_v srt mid(1) len' left above]
      from IH have "bisect_right a v lo mid \<le> mid" by simp
      with mid(2) have "bisect_right a v lo mid \<le> hi" by simp
      with IH show ?thesis unfolding eq by blast
    qed
  qed
qed

lemma sorted_split_count:
  assumes "sorted a" and "r \<le> length a"
    and "\<forall>j<r. a ! j \<le> v" and "\<forall>j. r \<le> j \<and> j < length a \<longrightarrow> v < a ! j"
  shows "length (filter (\<lambda>e. e \<le> (v::real)) a) = r"
proof -
  have a: "a = take r a @ drop r a" by simp
  have 1: "filter (\<lambda>e. e \<le> v) (take r a) = take r a"
    using assms(2,3) by (auto simp: filter_id_conv in_set_conv_nth)
  have 2: "filter (\<lambda>e. e \<le> v) (drop r a) = []"
  proof -
    have "\<not> e \<le> v" if "e \<in> set (drop r a)" for e
    proof -
      from that obtain i where i: "i < length a - r" "e = drop r a ! i"
        by (auto simp: in_set_conv_nth)
      then have "e = a ! (r + i)" using assms(2) by simp
      moreover have "v < a ! (r + i)" using assms(4) i by simp
      ultimately show ?thesis by simp
    qed
    then show ?thesis by (simp add: filter_empty_conv)
  qed
  have "filter (\<lambda>e. e \<le> v) a = filter (\<lambda>e. e \<le> v) (take r a) @ filter (\<lambda>e. e \<le> v) (drop r a)"
    by (metis a filter_append)
  with 1 2 assms(2) show ?thesis by simp
qed

lemma searchsorted_right_sorted:
  assumes "sorted a"
  shows "searchsorted_right a v = insertion_point a v"
proof -
  let ?r = "bisect_right a v 0 (length a)"
  have "0 \<le> ?r \<and> ?r \<le> length a \<and> (\<forall>j< ?r. a ! j \<le> v)
         \<and> (\<forall>j. ?r \<le> j \<and> j < length a \<longrightarrow> v < a ! j)"
    by (rule bisect_right_spec [OF assms]) simp_all
  then show ?thesis
    using sorted_split_count [OF assms, of ?r v]
    by (simp add: searchsorted_right_def insertion_point_def)
qed

lemma increasing_sorted: "increasing a \<Longrightarrow> sorted a"
  unfolding increasing_def by (rule sorted_wrt_mono_rel [of a "(<)"]) auto

subsection \<open>Evaluation at a scalar query\<close>

lemma py_index_nat: "k < n \<Longrightarrow> py_index n (int k) = Some k"
  by (simp add: py_index_def)

lemma getitem_nat: "k < length a \<Longrightarrow> getitem a (int k) = Inr (a ! k)"
  by (simp add: getitem_def py_index_nat)

lemma horner_segment:
  "yi sp ! k + (q - xi sp ! k) * (si sp ! k + (q - xi sp ! k) * (ai sp ! k + (q - xi sp ! k) * bi sp ! k))
     = segment sp k q"
  by (simp add: segment_def power2_eq_square power3_eq_cube algebra_simps)

lemma segment_index_bound: "2 \<le> length xs \<Longrightarrow> Suc (segment_index xs q) < length xs"
  by (auto simp: segment_index_def clip_def)

lemma call_on_segment:
  assumes "sorted (xi sp)" and "2 \<le> length (xi sp)"
    and "length (yi sp) = length (xi sp)" and "length (si sp) = length (xi sp)"
    and "length (ai sp) = length (xi sp) - 1" and "length (bi sp) = length (xi sp) - 1"
  shows "call sp q = Inr (segment sp (segment_index (xi sp) q) q)"
proof -
  let ?k = "segment_index (xi sp) q"
  have k: "Suc ?k < length (xi sp)" by (rule segment_index_bound [OF assms(2)])
  have idx: "clip (int (searchsorted_right (xi sp) q) - 1) 0 (int (length (xi sp)) - 2) = int ?k"
    using assms(2) by (auto simp: searchsorted_right_sorted [OF assms(1)] segment_index_def clip_def)
  have "call sp q = Inr (yi sp ! ?k + (q - xi sp ! ?k) * (si sp ! ?k + (q - xi sp ! ?k) * (ai sp ! ?k + (q - xi sp ! ?k) * bi sp ! ?k)))"
    using k assms(3-6)
    by (simp add: call_def Let_def idx getitem_nat and_then_Inr)
  then show ?thesis by (simp only: horner_segment)
qed

lemma insertion_point_below:
  assumes "sorted a" and "a \<noteq> []" and "q < a ! 0"
  shows "insertion_point a q = 0"
proof -
  have "\<forall>j. 0 \<le> j \<and> j < length a \<longrightarrow> q < a ! j"
  proof (intro allI impI)
    fix j assume "0 \<le> j \<and> j < length a"
    with assms(1) have "a ! 0 \<le> a ! j" by (simp add: sorted_iff_nth_mono)
    with assms(3) show "q < a ! j" by simp
  qed
  then show ?thesis
    unfolding insertion_point_def by (intro sorted_split_count [OF assms(1)]) simp_all
qed

lemma insertion_point_above:
  assumes "sorted a" and "a \<noteq> []" and "a ! (length a - 1) \<le> q"
  shows "insertion_point a q = length a"
proof -
  have "\<forall>j<length a. a ! j \<le> q"
  proof (intro allI impI)
    fix j assume "j < length a"
    with assms(1,2) have "a ! j \<le> a ! (length a - 1)" by (simp add: sorted_iff_nth_mono)
    with assms(3) show "a ! j \<le> q" by simp
  qed
  then show ?thesis
    unfolding insertion_point_def by (intro sorted_split_count [OF assms(1)]) simp_all
qed


subsection \<open>Interpolation and extrapolation\<close>

lemma CSpline_fields:
  assumes "length ys = length xs" and "length ss = length xs" and "CSpline xs ys ss = Inr sp"
  shows "xi sp = xs" and "yi sp = ys" and "si sp = ss"
    and "length (ai sp) = length xs - 1" and "length (bi sp) = length xs - 1"
    and "Suc i < length xs \<Longrightarrow>
           ai sp ! i = (3 * (ys ! Suc i - ys ! i) / (xs ! Suc i - xs ! i) - ss ! Suc i - 2 * ss ! i)
                           / (xs ! Suc i - xs ! i)"
    and "Suc i < length xs \<Longrightarrow>
           bi sp ! i = (ss ! Suc i + ss ! i - 2 * (ys ! Suc i - ys ! i) / (xs ! Suc i - xs ! i))
                           / (xs ! Suc i - xs ! i) ^ 2"
  using CSpline_equal_lengths [OF assms(1,2)] assms(3) by auto



lemma CSpline_call:
  assumes "length ys = length xs" and "length ss = length xs" and "CSpline xs ys ss = Inr sp"
    and "increasing xs" and "2 \<le> length xs"
  shows "call sp q = Inr (segment sp (segment_index xs q) q)"
  using call_on_segment [of sp q] increasing_sorted [OF assms(4)] assms(5)
  by (simp add: CSpline_fields(1-5) [OF assms(1-3)] assms(1,2))



text \<open>
  Claim C6. For a spline built by \<^verbatim>\<open>CSpline\<close> on \<open>N \<ge> 2\<close> strictly increasing nodes,
  \<^verbatim>\<open>__call__\<close> returns at every query \<open>q\<close> (it never raises) the cubic of the segment whose
  index is the rightmost insertion point of \<open>q\<close> minus one, clamped to \<open>0..N-2\<close>. Below
  \<open>x\<^sub>0\<close> that is segment \<open>0\<close>, read at the negative offset \<open>q - x\<^sub>0\<close>; at or above
  \<open>x\<^sub>N\<^sub>-\<^sub>1\<close> it is segment \<open>N-2\<close>, read at an offset \<open>q - x\<^sub>N\<^sub>-\<^sub>2\<close> of at least the last width.
\<close>

theorem evaluation_clamped_segment:
  assumes "increasing xs" and "2 \<le> length xs"
    and "length ys = length xs" and "length ss = length xs"
  shows "\<exists>sp. CSpline xs ys ss = Inr sp
           \<and> call sp q = Inr (segment sp (segment_index xs q) q)
           \<and> (q < xs ! 0 \<longrightarrow> segment_index xs q = 0 \<and> q - xs ! 0 < 0)
           \<and> (xs ! (length xs - 1) \<le> q \<longrightarrow>
                 segment_index xs q = length xs - 2
               \<and> xs ! (length xs - 1) - xs ! (length xs - 2) \<le> q - xs ! (length xs - 2))"
proof -
  from CSpline_equal_lengths [OF assms(3,4)] obtain sp where sp: "CSpline xs ys ss = Inr sp"
    by blast
  have s: "sorted xs" by (rule increasing_sorted [OF assms(1)])
  have ne: "xs \<noteq> []" using assms(2) by auto
  have below: "segment_index xs q = 0 \<and> q - xs ! 0 < 0" if "q < xs ! 0"
    using that by (simp add: segment_index_def insertion_point_below [OF s ne that] clip_def)
  have above: "segment_index xs q = length xs - 2
               \<and> xs ! (length xs - 1) - xs ! (length xs - 2) \<le> q - xs ! (length xs - 2)"
    if "xs ! (length xs - 1) \<le> q"
    using that assms(2)
    by (auto simp: segment_index_def insertion_point_above [OF s ne that] clip_def)
  show ?thesis
    using sp CSpline_call [OF assms(3,4) sp assms(1,2)] below above by blast
qed

theorem evaluation_clamped_segment_witness:
  "increasing [0, 1, 3] \<and> (2::nat) \<le> length [0, 1, 3 :: real]
     \<and> length [0, 1, 0 :: real] = length [0, 1, 3 :: real]
     \<and> length [1, 0, 2 :: real] = length [0, 1, 3 :: real]
     \<and> (- 1 :: real) < [0, 1, 3] ! 0
     \<and> [0, 1, 3] ! (length [0, 1, 3 :: real] - 1) \<le> (5 :: real)
     \<and> (\<exists>sp. CSpline [0, 1, 3] [0, 1, 0] [1, 0, 2] = Inr sp
           \<and> call sp (- 1) = Inr (segment sp 0 (- 1))
           \<and> call sp 5 = Inr (segment sp 1 5))
     \<and> segment_index [0, 1, 3] (- 1) = 0
     \<and> segment_index [0, 1, 3] 5 = 1"
proof -
  have inc: "increasing [0, 1, 3]" by (simp add: increasing_def)
  from evaluation_clamped_segment [OF inc, where ys = "[0, 1, 0]" and ss = "[1, 0, 2]" and q = "- 1"]
  have lo: "\<exists>sp. CSpline [0, 1, 3] [0, 1, 0] [1, 0, 2] = Inr sp
           \<and> call sp (- 1) = Inr (segment sp 0 (- 1)) \<and> segment_index [0, 1, 3] (- 1) = 0"
    by auto
  from evaluation_clamped_segment [OF inc, where ys = "[0, 1, 0]" and ss = "[1, 0, 2]" and q = 5]
  have hi: "\<exists>sp. CSpline [0, 1, 3] [0, 1, 0] [1, 0, 2] = Inr sp
           \<and> call sp 5 = Inr (segment sp 1 5) \<and> segment_index [0, 1, 3] 5 = 1"
    by auto
  from lo hi inc show ?thesis by auto
qed

end
